theory Spec2Isabelle
  imports Main "HOL-Library.Word"
begin

section \<open>Sensor rigs (\<^verbatim>\<open>colmap/sensor/rig.cc\<close>)\<close>

subsection \<open>Data\<close>

text \<open>
  Modelled from the spec: the header that declares \<^verbatim>\<open>sensor_t\<close> and the enumeration
  of sensor types is not among the sources this development covers. rig.cc shows the
  two members of the struct (\<^verbatim>\<open>sensor_id.type\<close> and \<^verbatim>\<open>sensor_id.id\<close>, which
  \<^verbatim>\<open>Rig::AddSensor\<close> prints) and compares sensor ids for equality only; the id is taken
  as a 32-bit word.
\<close>

datatype SensorType = INVALID | CAMERA | IMU

record sensor_t =
  type :: SensorType
  id' :: "32 word"

text \<open>
  Modelled from the spec: the constant \<^verbatim>\<open>kInvalidSensorId\<close> is declared in that same
  header. It is the sentinel that \<^verbatim>\<open>Rig::AddRefSensor\<close> compares against, the id of
  no sensor. No general proof below depends on which value it is, only on the
  comparisons the code makes with it.
\<close>

definition kInvalidSensorId :: sensor_t where
  "kInvalidSensorId = \<lparr>type = INVALID, id' = - 1\<rparr>"

text \<open>
  A rigid transformation (\<^verbatim>\<open>Rigid3d\<close>) is only stored by the rig, never inspected:
  an opaque type.
\<close>

typedecl Rigid3d

text \<open>
  The two members of \<^verbatim>\<open>Rig\<close> that rig.cc reads and writes: the reference sensor id
  and the \<^verbatim>\<open>std::map\<close> from the other sensors to their optional pose.
\<close>

record Rig =
  ref_sensor_id' :: sensor_t
  sensors_from_rig' :: "sensor_t \<rightharpoonup> Rigid3d option"

text \<open>
  Modelled from the spec: the class declaration (rig.h), with the initial values of the
  members, is not among the sources this development covers. A default-constructed rig
  has no reference sensor (the sentinel, which is what the check of
  \<^verbatim>\<open>Rig::AddRefSensor\<close> expects of a rig it may still set) and no other sensor:
  ``reference sensor must be set exactly once, before any other sensor is added''.
\<close>

definition Rig_init :: Rig where
  "Rig_init = \<lparr>ref_sensor_id' = kInvalidSensorId, sensors_from_rig' = Map.empty\<rparr>"

text \<open>
  Modelled from the spec: \<^verbatim>\<open>Rig::NumSensors\<close> and \<^verbatim>\<open>Rig::HasSensor\<close> are inline
  members declared in rig.h. A rig is ``a named collection of rigidly-mounted sensors;
  one sensor is designated reference (identity pose); all others store a pose relative
  to the reference'': its sensors are the reference sensor, once set, and the keys of
  the pose map.
\<close>

definition NumSensors :: "Rig \<Rightarrow> nat" where
  "NumSensors r =
     card (dom (sensors_from_rig' r)) + (if ref_sensor_id' r \<noteq> kInvalidSensorId then 1 else 0)"

definition HasSensor :: "sensor_t \<Rightarrow> Rig \<Rightarrow> bool" where
  "HasSensor sensor_id r \<longleftrightarrow>
     sensor_id = ref_sensor_id' r \<or> sensor_id \<in> dom (sensors_from_rig' r)"

subsection \<open>Failing checks\<close>

text \<open>
  \<^verbatim>\<open>THROW_CHECK\<close> throws when its condition is false. Each of the three checks of
  rig.cc gets an error value of its own, named after its message.
\<close>

datatype error =
    RefSensorAlreadySet
  | RefSensorNotAddedFirst
  | SensorInsertedTwice sensor_t

text \<open>
  A member function is a state transformer that also says how it ended: \<open>Inr ()\<close>
  for a normal return, \<open>Inl e\<close> for a throw. The rig in the result is the object as
  the call leaves it, also when it throws: the object outlives the exception.
\<close>

type_synonym rig_stmt = "Rig \<Rightarrow> (error + unit) \<times> Rig"

definition THROW_CHECK :: "(Rig \<Rightarrow> bool) \<Rightarrow> error \<Rightarrow> rig_stmt" where
  "THROW_CHECK cond e r = (if cond r then (Inr (), r) else (Inl e, r))"

definition THROW_CHECK_GE :: "(Rig \<Rightarrow> nat) \<Rightarrow> nat \<Rightarrow> error \<Rightarrow> rig_stmt" where
  "THROW_CHECK_GE val bound e r = (if val r \<ge> bound then (Inr (), r) else (Inl e, r))"

definition assign :: "(Rig \<Rightarrow> Rig) \<Rightarrow> rig_stmt" where
  "assign f r = (Inr (), f r)"

text \<open>Sequencing: a throw skips the statements after it.\<close>

definition seq :: "rig_stmt \<Rightarrow> rig_stmt \<Rightarrow> rig_stmt" where
  "seq s1 s2 r = (case s1 r of (Inl e, r') \<Rightarrow> (Inl e, r') | (Inr _, r') \<Rightarrow> s2 r')"

text \<open>\<^verbatim>\<open>std::map::emplace\<close> inserts only when the key is absent.\<close>

definition emplace :: "'k \<Rightarrow> 'v \<Rightarrow> ('k \<rightharpoonup> 'v) \<Rightarrow> ('k \<rightharpoonup> 'v)" where
  "emplace k v m = (if k \<in> dom m then m else m(k \<mapsto> v))"

subsection \<open>The two mutators\<close>

definition AddRefSensor :: "sensor_t \<Rightarrow> rig_stmt" where
  "AddRefSensor ref_sensor_id =
     seq (THROW_CHECK (\<lambda>r. ref_sensor_id' r = kInvalidSensorId) RefSensorAlreadySet)
         (assign (\<lambda>r. r\<lparr>ref_sensor_id' := ref_sensor_id\<rparr>))"

definition AddSensor :: "sensor_t \<Rightarrow> Rigid3d option \<Rightarrow> rig_stmt" where
  "AddSensor sensor_id sensor_from_rig =
     seq (THROW_CHECK_GE NumSensors 1 RefSensorNotAddedFirst)
    (seq (THROW_CHECK (\<lambda>r. \<not> HasSensor sensor_id r) (SensorInsertedTwice sensor_id))
         (assign (\<lambda>r. r\<lparr>sensors_from_rig' :=
                          emplace sensor_id sensor_from_rig (sensors_from_rig' r)\<rparr>)))"

text \<open>
  A history of calls on one rig. A caller that catches the exception of a failed call
  goes on with the rig as that call left it.
\<close>

datatype RigCall =
    CallAddRefSensor sensor_t
  | CallAddSensor sensor_t "Rigid3d option"

fun call :: "RigCall \<Rightarrow> rig_stmt" where
  "call (CallAddRefSensor s) = AddRefSensor s"
| "call (CallAddSensor s p) = AddSensor s p"

fun run :: "RigCall list \<Rightarrow> Rig \<Rightarrow> Rig" where
  "run [] r = r"
| "run (c # cs) r = run cs (snd (call c r))"

text \<open>Calls that are not \<^verbatim>\<open>AddRefSensor\<close>.\<close>

fun is_AddSensor :: "RigCall \<Rightarrow> bool" where
  "is_AddSensor (CallAddSensor s p) = True"
| "is_AddSensor (CallAddRefSensor s) = False"

text \<open>
  The invariant of every rig built through the two mutators: while the reference sensor
  is unset, the pose map is empty.
\<close>

definition unset_means_empty :: "Rig \<Rightarrow> bool" where
  "unset_means_empty r \<longleftrightarrow> (ref_sensor_id' r = kInvalidSensorId \<longrightarrow> sensors_from_rig' r = Map.empty)"

section \<open>Next-image selection of the incremental mapper (\<^verbatim>\<open>colmap/sfm/incremental_mapper.h\<close>)\<close>

text \<open>
  The header declares the mapper's options, its registration statistics and the
  signatures of \<^verbatim>\<open>FindNextImages\<close> and \<^verbatim>\<open>RegisterNextImage\<close>. Of the options, the
  two that select the next images are kept: the bound on registration trials and the
  selection method.
\<close>

type_synonym image_t = "32 word"

datatype ImageSelectionMethod =
    MAX_VISIBLE_POINTS_NUM
  | MAX_VISIBLE_POINTS_RATIO
  | MIN_UNCERTAINTY

record Options =
  max_reg_trials :: int
  image_selection_method :: ImageSelectionMethod

text \<open>
  Of \<^verbatim>\<open>RegistrationStatistics\<close>, the two per-image counters: ``the number of
  reconstructions in which images are registered'' and the ``number of trials to
  register image in current reconstruction'', which is ``used to set an upper bound to
  the number of trials to register an image''. Both are \<^verbatim>\<open>unordered_map\<close>s to
  \<^verbatim>\<open>size_t\<close>; an image without an entry counts zero, and the counters are taken as
  naturals.
\<close>

record RegistrationStatistics =
  num_registrations :: "image_t \<rightharpoonup> nat"
  num_reg_trials :: "image_t \<rightharpoonup> nat"

definition count_of :: "('k \<rightharpoonup> nat) \<Rightarrow> 'k \<Rightarrow> nat" where
  "count_of m k = (case m k of None \<Rightarrow> 0 | Some n \<Rightarrow> n)"

definition increment :: "'k \<Rightarrow> ('k \<rightharpoonup> nat) \<Rightarrow> ('k \<rightharpoonup> nat)" where
  "increment k m = m(k \<mapsto> count_of m k + 1)"

text \<open>
  Modelled from the spec: the bodies of the mapper's operations (incremental_mapper.cc)
  are not among the sources this development covers. The state the two operations below
  work on is the images of the scene, the set of images registered in the current
  reconstruction and the registration statistics.
\<close>

record Mapper =
  images :: "image_t list"
  registered :: "image_t set"
  reg_stats :: RegistrationStatistics

text \<open>
  Modelled from the spec: the body of \<^verbatim>\<open>IncrementalMapper::FindNextImages\<close> is in
  incremental_mapper.cc. It ``ranks unregistered images by one of three policies
  [...] and excludes images that exhausted \<^verbatim>\<open>max_reg_trials\<close>. Returns an ordered
  candidate list''. The three scores come from the scene's geometry; they enter as
  \<open>rank_key\<close>, the key of each image under each policy, smaller keys first.
\<close>

definition FindNextImages ::
  "(ImageSelectionMethod \<Rightarrow> image_t \<Rightarrow> 'k::linorder) \<Rightarrow> Options \<Rightarrow> Mapper \<Rightarrow> image_t list" where
  "FindNextImages rank_key options m =
     sort_key (rank_key (image_selection_method options))
       (filter (\<lambda>image_id. image_id \<notin> registered m \<and>
                   int (count_of (num_reg_trials (reg_stats m)) image_id) < max_reg_trials options)
               (images m))"

text \<open>
  Modelled from the spec: the body of \<^verbatim>\<open>IncrementalMapper::RegisterNextImage\<close> is in
  incremental_mapper.cc. Whether the estimated pose passes the thresholds is the
  estimator's answer, \<open>accepted\<close>. ``On success, updates the scene graph [...] and
  updates Registration Statistics (increments trial and registration counters [...]).
  On failure, increments the image's trial counter only''. The result is the boolean the
  operation returns and the mapper after it.
\<close>

definition RegisterNextImage :: "Options \<Rightarrow> bool \<Rightarrow> image_t \<Rightarrow> Mapper \<Rightarrow> bool \<times> Mapper" where
  "RegisterNextImage options accepted image_id m =
     (if accepted
      then (True, m\<lparr>registered := insert image_id (registered m),
                    reg_stats := (reg_stats m)\<lparr>
                      num_registrations := increment image_id (num_registrations (reg_stats m)),
                      num_reg_trials := increment image_id (num_reg_trials (reg_stats m))\<rparr>\<rparr>)
      else (False, m\<lparr>reg_stats := (reg_stats m)\<lparr>
                      num_reg_trials := increment image_id (num_reg_trials (reg_stats m))\<rparr>\<rparr>))"

text \<open>
  A history of registration attempts within one reconstruction: each attempt names its
  options, its image and whether the pose was accepted.
\<close>

record Attempt =
  attempt_options :: Options
  attempt_image :: image_t
  attempt_accepted :: bool

fun register_all :: "Attempt list \<Rightarrow> Mapper \<Rightarrow> Mapper" where
  "register_all [] m = m"
| "register_all (a # as) m =
     register_all as
       (snd (RegisterNextImage (attempt_options a) (attempt_accepted a) (attempt_image a) m))"

text \<open>The failed attempts on one image in a history.\<close>

definition num_failed :: "image_t \<Rightarrow> Attempt list \<Rightarrow> nat" where
  "num_failed image_id as =
     length (filter (\<lambda>a. attempt_image a = image_id \<and> \<not> attempt_accepted a) as)"

text \<open>
  The defaults of the header for the two options, a scene of two unregistered images
  without any trial so far, and a failed attempt under the default options.
\<close>

definition default_options :: Options where
  "default_options = \<lparr>max_reg_trials = 3, image_selection_method = MIN_UNCERTAINTY\<rparr>"

definition two_images :: Mapper where
  "two_images = \<lparr>images = [1, 2], registered = {},
                 reg_stats = \<lparr>num_registrations = Map.empty, num_reg_trials = Map.empty\<rparr>\<rparr>"

definition failed_attempt :: "image_t \<Rightarrow> Attempt" where
  "failed_attempt image_id =
     \<lparr>attempt_options = default_options, attempt_image = image_id, attempt_accepted = False\<rparr>"

text \<open>The trial counter of an image, as the mapper holds it.\<close>

definition trials :: "Mapper \<Rightarrow> image_t \<Rightarrow> nat" where
  "trials m image_id = count_of (num_reg_trials (reg_stats m)) image_id"

section \<open>Properties of the rig mutators\<close>

subsection \<open>What a call does, case by case\<close>

lemma AddRefSensor_unset:
  "ref_sensor_id' r = kInvalidSensorId \<Longrightarrow>
   AddRefSensor s r = (Inr (), r\<lparr>ref_sensor_id' := s\<rparr>)"
  by (simp add: AddRefSensor_def seq_def THROW_CHECK_def assign_def)

lemma AddRefSensor_set:
  "ref_sensor_id' r \<noteq> kInvalidSensorId \<Longrightarrow>
   AddRefSensor s r = (Inl RefSensorAlreadySet, r)"
  by (simp add: AddRefSensor_def seq_def THROW_CHECK_def assign_def)

lemma AddSensor_no_sensor:
  "NumSensors r = 0 \<Longrightarrow> AddSensor s p r = (Inl RefSensorNotAddedFirst, r)"
  by (simp add: AddSensor_def seq_def THROW_CHECK_GE_def)

lemma AddSensor_present:
  "NumSensors r \<ge> 1 \<Longrightarrow> HasSensor s r \<Longrightarrow>
   AddSensor s p r = (Inl (SensorInsertedTwice s), r)"
  by (simp add: AddSensor_def seq_def THROW_CHECK_GE_def THROW_CHECK_def)

lemma AddSensor_absent:
  "NumSensors r \<ge> 1 \<Longrightarrow> \<not> HasSensor s r \<Longrightarrow>
   AddSensor s p r =
     (Inr (), r\<lparr>sensors_from_rig' := emplace s p (sensors_from_rig' r)\<rparr>)"
  by (simp add: AddSensor_def seq_def THROW_CHECK_GE_def THROW_CHECK_def assign_def)

lemma NumSensors_ref_set:
  "ref_sensor_id' r \<noteq> kInvalidSensorId \<Longrightarrow> NumSensors r \<ge> 1"
  by (simp add: NumSensors_def)

lemma AddSensor_keeps_ref: "ref_sensor_id' (snd (AddSensor s p r)) = ref_sensor_id' r"
  by (simp add: AddSensor_def seq_def THROW_CHECK_GE_def THROW_CHECK_def assign_def)

lemma HasSensor_after_emplace:
  "HasSensor s (r\<lparr>sensors_from_rig' := emplace s p (sensors_from_rig' r)\<rparr>)"
  by (simp add: HasSensor_def emplace_def)

lemma NumSensors_unset_empty:
  "ref_sensor_id' r = kInvalidSensorId \<Longrightarrow> sensors_from_rig' r = Map.empty \<Longrightarrow> NumSensors r = 0"
  by (simp add: NumSensors_def)

lemma AddSensor_cases:
  "AddSensor s p r = (Inl RefSensorNotAddedFirst, r) \<and> NumSensors r = 0
   \<or> AddSensor s p r = (Inl (SensorInsertedTwice s), r) \<and> NumSensors r \<ge> 1 \<and> HasSensor s r
   \<or> AddSensor s p r = (Inr (), r\<lparr>sensors_from_rig' := emplace s p (sensors_from_rig' r)\<rparr>)
       \<and> NumSensors r \<ge> 1 \<and> \<not> HasSensor s r"
  using AddSensor_no_sensor [of r s p] AddSensor_present [of r s p] AddSensor_absent [of r s p]
  by (cases "NumSensors r = 0"; cases "HasSensor s r") auto

lemma AddRefSensor_cases:
  "AddRefSensor s r = (Inr (), r\<lparr>ref_sensor_id' := s\<rparr>) \<and> ref_sensor_id' r = kInvalidSensorId
   \<or> AddRefSensor s r = (Inl RefSensorAlreadySet, r) \<and> ref_sensor_id' r \<noteq> kInvalidSensorId"
  using AddRefSensor_unset [of r s] AddRefSensor_set [of r s] by blast

lemma unset_means_empty_call:
  assumes "unset_means_empty r"
  shows "unset_means_empty (snd (call c r))"
proof (cases c)
  case (CallAddRefSensor s)
  from AddRefSensor_cases [of s r] assms show ?thesis
    unfolding CallAddRefSensor by (auto simp: unset_means_empty_def)
next
  case (CallAddSensor s p)
  from AddSensor_cases [of s p r] show ?thesis
  proof (elim disjE conjE)
    assume "AddSensor s p r = (Inl RefSensorNotAddedFirst, r)"
    with assms show ?thesis unfolding CallAddSensor by simp
  next
    assume "AddSensor s p r = (Inl (SensorInsertedTwice s), r)"
    with assms show ?thesis unfolding CallAddSensor by simp
  next
    assume ok: "AddSensor s p r = (Inr (), r\<lparr>sensors_from_rig' := emplace s p (sensors_from_rig' r)\<rparr>)"
      and n: "NumSensors r \<ge> 1"
    have "ref_sensor_id' r \<noteq> kInvalidSensorId"
    proof
      assume u: "ref_sensor_id' r = kInvalidSensorId"
      with assms have "sensors_from_rig' r = Map.empty" by (simp add: unset_means_empty_def)
      with u have "NumSensors r = 0" by (rule NumSensors_unset_empty)
      with n show False by simp
    qed
    with ok show ?thesis unfolding CallAddSensor by (simp add: unset_means_empty_def)
  qed
qed

lemma unset_means_empty_run:
  "unset_means_empty r \<Longrightarrow> unset_means_empty (run cs r)"
  by (induction cs arbitrary: r) (simp_all add: unset_means_empty_call)

lemma unset_means_empty_init: "unset_means_empty Rig_init"
  by (simp add: unset_means_empty_def Rig_init_def)

lemma only_AddSensor_keeps_ref:
  "\<forall>c \<in> set cs. is_AddSensor c \<Longrightarrow> ref_sensor_id' (run cs r) = ref_sensor_id' r"
proof (induction cs arbitrary: r)
  case Nil
  show ?case by simp
next
  case (Cons c cs)
  then obtain s p where c: "c = CallAddSensor s p" by (cases c) auto
  from Cons show ?case by (simp add: c AddSensor_keeps_ref)
qed

subsection \<open>Adding a sensor before the reference sensor\<close>

text \<open>
  Claim C1. On a rig built from a default-constructed one by any history of calls,
  \<^verbatim>\<open>AddSensor\<close> throws at its first check, for every sensor id and every optional
  pose, both when no call of the history was \<^verbatim>\<open>AddRefSensor\<close> and, more generally,
  whenever the reference sensor of the rig is still unset.
\<close>

theorem AddSensor_before_AddRefSensor_fails:
  "((\<forall>c \<in> set cs. is_AddSensor c) \<longrightarrow>
      fst (AddSensor sensor_id sensor_from_rig (run cs Rig_init)) = Inl RefSensorNotAddedFirst) \<and>
   (ref_sensor_id' (run cs Rig_init) = kInvalidSensorId \<longrightarrow>
      fst (AddSensor sensor_id sensor_from_rig (run cs Rig_init)) = Inl RefSensorNotAddedFirst)"
proof -
  have fails: "fst (AddSensor sensor_id sensor_from_rig (run cs Rig_init)) = Inl RefSensorNotAddedFirst"
    if u: "ref_sensor_id' (run cs Rig_init) = kInvalidSensorId"
  proof -
    have "unset_means_empty (run cs Rig_init)"
      by (rule unset_means_empty_run) (rule unset_means_empty_init)
    with u have "sensors_from_rig' (run cs Rig_init) = Map.empty"
      by (simp add: unset_means_empty_def)
    with u have "NumSensors (run cs Rig_init) = 0" by (rule NumSensors_unset_empty)
    then show ?thesis by (simp add: AddSensor_no_sensor)
  qed
  have "ref_sensor_id' (run cs Rig_init) = kInvalidSensorId" if "\<forall>c \<in> set cs. is_AddSensor c"
    using only_AddSensor_keeps_ref [OF that, of Rig_init] by (simp add: Rig_init_def)
  with fails show ?thesis by blast
qed

theorem AddSensor_before_AddRefSensor_fails_witness:
  "fst (AddSensor \<lparr>type = CAMERA, id' = 1\<rparr> None Rig_init) = Inl RefSensorNotAddedFirst \<and>
   fst (AddSensor \<lparr>type = CAMERA, id' = 1\<rparr> None
          (run [CallAddSensor \<lparr>type = CAMERA, id' = 2\<rparr> None, CallAddRefSensor kInvalidSensorId] Rig_init))
     = Inl RefSensorNotAddedFirst"
proof -
  have a: "fst (AddSensor \<lparr>type = CAMERA, id' = 1\<rparr> None Rig_init) = Inl RefSensorNotAddedFirst"
    using AddSensor_before_AddRefSensor_fails [of "[]" "\<lparr>type = CAMERA, id' = 1\<rparr>" None]
    by simp
  have u: "ref_sensor_id' (run [CallAddSensor \<lparr>type = CAMERA, id' = 2\<rparr> None, CallAddRefSensor kInvalidSensorId] Rig_init) = kInvalidSensorId"
    by (simp add: AddSensor_def AddRefSensor_def seq_def THROW_CHECK_GE_def THROW_CHECK_def
          assign_def NumSensors_def Rig_init_def)
  from a u AddSensor_before_AddRefSensor_fails
    [of "[CallAddSensor \<lparr>type = CAMERA, id' = 2\<rparr> None, CallAddRefSensor kInvalidSensorId]"
        "\<lparr>type = CAMERA, id' = 1\<rparr>" None]
  show ?thesis by blast
qed

subsection \<open>Adding the same sensor twice\<close>

lemma set_ref_call:
  "ref_sensor_id' r \<noteq> kInvalidSensorId \<Longrightarrow> ref_sensor_id' (snd (call c r)) = ref_sensor_id' r"
  by (cases c) (simp_all add: AddRefSensor_set AddSensor_keeps_ref)

lemma set_ref_run:
  "ref_sensor_id' r \<noteq> kInvalidSensorId \<Longrightarrow> ref_sensor_id' (run cs r) = ref_sensor_id' r"
  by (induction cs arbitrary: r) (simp_all add: set_ref_call)

lemma dom_emplace: "dom (emplace k v m) = insert k (dom m)"
  by (auto simp: emplace_def)

lemma sensors_grow_call:
  "dom (sensors_from_rig' r) \<subseteq> dom (sensors_from_rig' (snd (call c r)))"
proof (cases c)
  case (CallAddRefSensor s)
  from AddRefSensor_cases [of s r] show ?thesis unfolding CallAddRefSensor by auto
next
  case (CallAddSensor s p)
  have "dom (sensors_from_rig' (snd (AddSensor s p r))) = dom (sensors_from_rig' r)
      \<or> dom (sensors_from_rig' (snd (AddSensor s p r))) = insert s (dom (sensors_from_rig' r))"
    using AddSensor_cases [of s p r]
  proof (elim disjE conjE)
    assume "AddSensor s p r = (Inr (), r\<lparr>sensors_from_rig' := emplace s p (sensors_from_rig' r)\<rparr>)"
    then show ?thesis by (simp add: dom_emplace)
  qed simp_all
  then show ?thesis unfolding CallAddSensor by auto
qed

lemma HasSensor_call:
  assumes "ref_sensor_id' r \<noteq> kInvalidSensorId" and "HasSensor s r"
  shows "HasSensor s (snd (call c r))"
  using assms sensors_grow_call [of r c] set_ref_call [of r c]
  by (auto simp: HasSensor_def)

lemma HasSensor_run:
  "ref_sensor_id' r \<noteq> kInvalidSensorId \<Longrightarrow> HasSensor s r \<Longrightarrow> HasSensor s (run cs r)"
proof (induction cs arbitrary: r)
  case Nil
  then show ?case by simp
next
  case (Cons c cs)
  from Cons.prems have "HasSensor s (snd (call c r))" by (rule HasSensor_call)
  moreover from Cons.prems have "ref_sensor_id' (snd (call c r)) \<noteq> kInvalidSensorId"
    by (simp add: set_ref_call)
  ultimately show ?case using Cons.IH by simp
qed

lemma HasSensor_after_AddSensor:
  "ref_sensor_id' r \<noteq> kInvalidSensorId \<Longrightarrow> HasSensor s (snd (AddSensor s p r))"
  using AddSensor_cases [of s p r] NumSensors_ref_set [of r]
  by (auto simp: HasSensor_after_emplace)

text \<open>
  Claim C2. On every rig whose reference sensor is set, the second of two calls of
  \<^verbatim>\<open>AddSensor\<close> with the same sensor id throws the ``inserted twice'' error,
  whatever the first call did (it may itself have thrown, as when the id is the
  reference sensor's), whatever the two poses, and whatever calls came in between.
\<close>

theorem AddSensor_twice_fails:
  assumes "ref_sensor_id' r \<noteq> kInvalidSensorId"
  shows "fst (AddSensor sensor_id p2 (run cs (snd (AddSensor sensor_id p1 r))))
           = Inl (SensorInsertedTwice sensor_id)"
proof -
  let ?r1 = "snd (AddSensor sensor_id p1 r)"
  from assms have set1: "ref_sensor_id' ?r1 \<noteq> kInvalidSensorId"
    by (simp add: AddSensor_keeps_ref)
  from assms have "HasSensor sensor_id ?r1" by (rule HasSensor_after_AddSensor)
  with set1 have has: "HasSensor sensor_id (run cs ?r1)" by (rule HasSensor_run)
  from set1 have "ref_sensor_id' (run cs ?r1) \<noteq> kInvalidSensorId" by (simp add: set_ref_run)
  then have "NumSensors (run cs ?r1) \<ge> 1" by (rule NumSensors_ref_set)
  with has show ?thesis by (simp add: AddSensor_present)
qed

lemma cam1_valid: "ref_sensor_id' (Rig_init\<lparr>ref_sensor_id' := \<lparr>type = CAMERA, id' = 1\<rparr>\<rparr>) \<noteq> kInvalidSensorId"
  by (simp add: kInvalidSensorId_def)

theorem AddSensor_twice_fails_witness:
  "ref_sensor_id' (Rig_init\<lparr>ref_sensor_id' := \<lparr>type = CAMERA, id' = 1\<rparr>\<rparr>) \<noteq> kInvalidSensorId \<and>
   fst (AddSensor \<lparr>type = CAMERA, id' = 2\<rparr> None (Rig_init\<lparr>ref_sensor_id' := \<lparr>type = CAMERA, id' = 1\<rparr>\<rparr>)) = Inr () \<and>
   fst (AddSensor \<lparr>type = CAMERA, id' = 2\<rparr> None
         (run [] (snd (AddSensor \<lparr>type = CAMERA, id' = 2\<rparr> None
                        (Rig_init\<lparr>ref_sensor_id' := \<lparr>type = CAMERA, id' = 1\<rparr>\<rparr>)))))
     = Inl (SensorInsertedTwice \<lparr>type = CAMERA, id' = 2\<rparr>) \<and>
   fst (AddSensor \<lparr>type = CAMERA, id' = 1\<rparr> None
         (run [CallAddSensor \<lparr>type = IMU, id' = 1\<rparr> None]
            (snd (AddSensor \<lparr>type = CAMERA, id' = 1\<rparr> None
                        (Rig_init\<lparr>ref_sensor_id' := \<lparr>type = CAMERA, id' = 1\<rparr>\<rparr>)))))
     = Inl (SensorInsertedTwice \<lparr>type = CAMERA, id' = 1\<rparr>)"
proof -
  have first: "fst (AddSensor \<lparr>type = CAMERA, id' = 2\<rparr> None (Rig_init\<lparr>ref_sensor_id' := \<lparr>type = CAMERA, id' = 1\<rparr>\<rparr>)) = Inr ()"
    by (simp add: AddSensor_def seq_def THROW_CHECK_GE_def THROW_CHECK_def assign_def
          NumSensors_def HasSensor_def Rig_init_def kInvalidSensorId_def)
  from cam1_valid first
    AddSensor_twice_fails [OF cam1_valid, of "\<lparr>type = CAMERA, id' = 2\<rparr>" None "[]" None]
    AddSensor_twice_fails [OF cam1_valid, of "\<lparr>type = CAMERA, id' = 1\<rparr>" None
      "[CallAddSensor \<lparr>type = IMU, id' = 1\<rparr> None]" None]
  show ?thesis by blast
qed

subsection \<open>Setting the reference sensor\<close>

text \<open>
  Claim C3, as amended. \<^verbatim>\<open>AddRefSensor\<close> succeeds on a rig whose reference sensor
  is unset (as on a fresh rig) and sets the reference sensor id to the given id; when
  that id is not \<^verbatim>\<open>kInvalidSensorId\<close>, every later call of \<^verbatim>\<open>AddRefSensor\<close> on the
  rig throws, regardless of the id passed and of the calls in between.
\<close>

theorem AddRefSensor_once:
  "(ref_sensor_id' r = kInvalidSensorId \<longrightarrow>
      AddRefSensor ref_sensor_id r = (Inr (), r\<lparr>ref_sensor_id' := ref_sensor_id\<rparr>)) \<and>
   (ref_sensor_id' r = kInvalidSensorId \<and> ref_sensor_id \<noteq> kInvalidSensorId \<longrightarrow>
      fst (AddRefSensor other_id (run cs (snd (AddRefSensor ref_sensor_id r))))
        = Inl RefSensorAlreadySet)"
proof (intro conjI impI)
  assume "ref_sensor_id' r = kInvalidSensorId"
  then show "AddRefSensor ref_sensor_id r = (Inr (), r\<lparr>ref_sensor_id' := ref_sensor_id\<rparr>)"
    by (rule AddRefSensor_unset)
next
  assume a: "ref_sensor_id' r = kInvalidSensorId \<and> ref_sensor_id \<noteq> kInvalidSensorId"
  then have "snd (AddRefSensor ref_sensor_id r) = r\<lparr>ref_sensor_id' := ref_sensor_id\<rparr>"
    by (simp add: AddRefSensor_unset)
  with a have "ref_sensor_id' (snd (AddRefSensor ref_sensor_id r)) \<noteq> kInvalidSensorId" by simp
  then have "ref_sensor_id' (run cs (snd (AddRefSensor ref_sensor_id r))) \<noteq> kInvalidSensorId"
    by (simp add: set_ref_run)
  then show "fst (AddRefSensor other_id (run cs (snd (AddRefSensor ref_sensor_id r))))
        = Inl RefSensorAlreadySet"
    by (simp add: AddRefSensor_set)
qed

theorem AddRefSensor_once_witness:
  "AddRefSensor \<lparr>type = CAMERA, id' = 1\<rparr> Rig_init
     = (Inr (), Rig_init\<lparr>ref_sensor_id' := \<lparr>type = CAMERA, id' = 1\<rparr>\<rparr>) \<and>
   fst (AddRefSensor \<lparr>type = CAMERA, id' = 2\<rparr>
         (run [CallAddSensor \<lparr>type = CAMERA, id' = 2\<rparr> None]
              (snd (AddRefSensor \<lparr>type = CAMERA, id' = 1\<rparr> Rig_init))))
     = Inl RefSensorAlreadySet"
proof -
  have u: "ref_sensor_id' Rig_init = kInvalidSensorId" by (simp add: Rig_init_def)
  have v: "\<lparr>type = CAMERA, id' = 1\<rparr> \<noteq> kInvalidSensorId" by (simp add: kInvalidSensorId_def)
  from u v AddRefSensor_once [of Rig_init "\<lparr>type = CAMERA, id' = 1\<rparr>" "\<lparr>type = CAMERA, id' = 2\<rparr>"
      "[CallAddSensor \<lparr>type = CAMERA, id' = 2\<rparr> None]"]
  show ?thesis by blast
qed

text \<open>
  Claim C3 as stated fails when the id given first is the sentinel itself: the call
  succeeds, the reference sensor stays unset, and a second call succeeds as well.
\<close>

theorem AddRefSensor_twice_counterexample:
  "fst (AddRefSensor kInvalidSensorId Rig_init) = Inr () \<and>
   fst (AddRefSensor \<lparr>type = CAMERA, id' = 1\<rparr> (snd (AddRefSensor kInvalidSensorId Rig_init)))
     = Inr ()"
  by (simp add: AddRefSensor_def seq_def THROW_CHECK_def assign_def Rig_init_def)

subsection \<open>A failed call changes nothing\<close>

text \<open>
  Claim C10. Whenever \<^verbatim>\<open>AddRefSensor\<close> or \<^verbatim>\<open>AddSensor\<close> throws, the rig (its
  reference sensor id and its pose map) is left exactly as it was before the call.
\<close>

theorem Rig_mutators_atomic_on_failure:
  "(fst (AddRefSensor ref_sensor_id r) = Inl e \<longrightarrow> snd (AddRefSensor ref_sensor_id r) = r) \<and>
   (fst (AddSensor sensor_id sensor_from_rig r) = Inl e \<longrightarrow>
      snd (AddSensor sensor_id sensor_from_rig r) = r)"
proof (intro conjI impI)
  assume "fst (AddRefSensor ref_sensor_id r) = Inl e"
  with AddRefSensor_cases [of ref_sensor_id r]
  show "snd (AddRefSensor ref_sensor_id r) = r" by auto
next
  assume "fst (AddSensor sensor_id sensor_from_rig r) = Inl e"
  with AddSensor_cases [of sensor_id sensor_from_rig r]
  show "snd (AddSensor sensor_id sensor_from_rig r) = r" by auto
qed

theorem Rig_mutators_atomic_on_failure_witness:
  "fst (AddRefSensor \<lparr>type = CAMERA, id' = 2\<rparr>
          (Rig_init\<lparr>ref_sensor_id' := \<lparr>type = CAMERA, id' = 1\<rparr>\<rparr>)) = Inl RefSensorAlreadySet \<and>
   snd (AddRefSensor \<lparr>type = CAMERA, id' = 2\<rparr>
          (Rig_init\<lparr>ref_sensor_id' := \<lparr>type = CAMERA, id' = 1\<rparr>\<rparr>))
     = Rig_init\<lparr>ref_sensor_id' := \<lparr>type = CAMERA, id' = 1\<rparr>\<rparr> \<and>
   fst (AddSensor \<lparr>type = CAMERA, id' = 1\<rparr> None
          (Rig_init\<lparr>ref_sensor_id' := \<lparr>type = CAMERA, id' = 1\<rparr>\<rparr>))
     = Inl (SensorInsertedTwice \<lparr>type = CAMERA, id' = 1\<rparr>) \<and>
   snd (AddSensor \<lparr>type = CAMERA, id' = 1\<rparr> None
          (Rig_init\<lparr>ref_sensor_id' := \<lparr>type = CAMERA, id' = 1\<rparr>\<rparr>))
     = Rig_init\<lparr>ref_sensor_id' := \<lparr>type = CAMERA, id' = 1\<rparr>\<rparr>"
proof -
  let ?r = "Rig_init\<lparr>ref_sensor_id' := \<lparr>type = CAMERA, id' = 1\<rparr>\<rparr>"
  have a: "fst (AddRefSensor \<lparr>type = CAMERA, id' = 2\<rparr> ?r) = Inl RefSensorAlreadySet"
    by (simp add: AddRefSensor_def seq_def THROW_CHECK_def Rig_init_def kInvalidSensorId_def)
  have b: "fst (AddSensor \<lparr>type = CAMERA, id' = 1\<rparr> None ?r)
             = Inl (SensorInsertedTwice \<lparr>type = CAMERA, id' = 1\<rparr>)"
    by (simp add: AddSensor_def seq_def THROW_CHECK_GE_def THROW_CHECK_def NumSensors_def
          HasSensor_def Rig_init_def kInvalidSensorId_def)
  from a b
    Rig_mutators_atomic_on_failure [of "\<lparr>type = CAMERA, id' = 2\<rparr>" ?r RefSensorAlreadySet
      "\<lparr>type = CAMERA, id' = 1\<rparr>" None]
    Rig_mutators_atomic_on_failure [of "\<lparr>type = CAMERA, id' = 2\<rparr>" ?r
      "SensorInsertedTwice \<lparr>type = CAMERA, id' = 1\<rparr>" "\<lparr>type = CAMERA, id' = 1\<rparr>" None]
  show ?thesis by blast
qed

section \<open>Properties of next-image selection\<close>

lemma trials_RegisterNextImage:
  "trials (snd (RegisterNextImage options accepted image_id m)) i =
     (if i = image_id then trials m i + 1 else trials m i)"
  by (simp add: RegisterNextImage_def trials_def increment_def count_of_def)

lemma register_all_append:
  "register_all (as @ bs) m = register_all bs (register_all as m)"
  by (induction as arbitrary: m) simp_all

lemma trials_register_all_mono: "trials m i \<le> trials (register_all as m) i"
proof (induction as arbitrary: m)
  case Nil
  show ?case by simp
next
  case (Cons a as)
  have "trials m i
          \<le> trials (snd (RegisterNextImage (attempt_options a) (attempt_accepted a)
                             (attempt_image a) m)) i"
    by (simp add: trials_RegisterNextImage)
  also have "\<dots> \<le> trials (register_all (a # as) m) i"
    using Cons.IH by simp
  finally show ?case .
qed

lemma trials_count_failed: "trials m i + num_failed i as \<le> trials (register_all as m) i"
proof (induction as arbitrary: m)
  case Nil
  show ?case by (simp add: num_failed_def)
next
  case (Cons a as)
  let ?m' = "snd (RegisterNextImage (attempt_options a) (attempt_accepted a) (attempt_image a) m)"
  have "trials m i + num_failed i (a # as) \<le> trials ?m' i + num_failed i as"
    by (simp add: trials_RegisterNextImage num_failed_def)
  also have "\<dots> \<le> trials (register_all as ?m') i" by (rule Cons.IH)
  finally show ?case by simp
qed

lemma FindNextImages_set:
  "set (FindNextImages rank_key options m) =
     {i \<in> set (images m). i \<notin> registered m \<and> int (trials m i) < max_reg_trials options}"
  by (auto simp: FindNextImages_def trials_def)

text \<open>
  Claim C4. Once the trial counter of an image is above \<^verbatim>\<open>max_reg_trials\<close>, and so
  once more than \<^verbatim>\<open>max_reg_trials\<close> attempts to register it have failed, the image is in
  no list that \<^verbatim>\<open>FindNextImages\<close> returns under these options, after any further
  history of registration attempts in the reconstruction.
\<close>

theorem exhausted_image_never_found_again:
  "(max_reg_trials options < int (trials m image_id) \<longrightarrow>
      image_id \<notin> set (FindNextImages rank_key options (register_all later m))) \<and>
   (max_reg_trials options < int (num_failed image_id before) \<longrightarrow>
      image_id \<notin> set (FindNextImages rank_key options (register_all (before @ later) m)))"
proof (intro conjI impI)
  assume "max_reg_trials options < int (trials m image_id)"
  also have "int (trials m image_id) \<le> int (trials (register_all later m) image_id)"
    using trials_register_all_mono [of m image_id later] by simp
  finally show "image_id \<notin> set (FindNextImages rank_key options (register_all later m))"
    by (simp add: FindNextImages_set)
next
  assume "max_reg_trials options < int (num_failed image_id before)"
  also have "int (num_failed image_id before) \<le> int (trials (register_all before m) image_id)"
    using trials_count_failed [of m image_id before] by simp
  also have "\<dots> \<le> int (trials (register_all (before @ later) m) image_id)"
    using trials_register_all_mono [of "register_all before m" image_id later]
    by (simp add: register_all_append)
  finally show "image_id \<notin> set (FindNextImages rank_key options (register_all (before @ later) m))"
    by (simp add: FindNextImages_set)
qed

lemmas mapper_eval = default_options_def two_images_def failed_attempt_def
  RegisterNextImage_def FindNextImages_def increment_def count_of_def num_failed_def trials_def

theorem exhausted_image_never_found_again_witness:
  "max_reg_trials default_options
     < int (trials (register_all [failed_attempt 1, failed_attempt 1, failed_attempt 1,
                                  failed_attempt 1] two_images) 1) \<and>
   1 \<notin> set (FindNextImages (\<lambda>method. unat) default_options
              (register_all [failed_attempt 2]
                 (register_all [failed_attempt 1, failed_attempt 1, failed_attempt 1,
                                failed_attempt 1] two_images))) \<and>
   max_reg_trials default_options
     < int (num_failed 1 [failed_attempt 1, failed_attempt 1, failed_attempt 1,
                          failed_attempt 1]) \<and>
   1 \<notin> set (FindNextImages (\<lambda>method. unat) default_options
              (register_all ([failed_attempt 1, failed_attempt 1, failed_attempt 1,
                              failed_attempt 1] @ [failed_attempt 2]) two_images)) \<and>
   FindNextImages (\<lambda>method. unat) default_options
     (register_all [failed_attempt 1, failed_attempt 1] two_images) = [1, 2]"
proof -
  let ?four = "[failed_attempt 1, failed_attempt 1, failed_attempt 1, failed_attempt 1]"
  have a: "max_reg_trials default_options < int (trials (register_all ?four two_images) 1)"
    by (simp add: mapper_eval)
  have b: "max_reg_trials default_options < int (num_failed 1 ?four)"
    by (simp add: mapper_eval)
  have c: "FindNextImages (\<lambda>method. unat) default_options
             (register_all [failed_attempt 1, failed_attempt 1] two_images) = [1, 2]"
    by (simp add: mapper_eval)
  from a b c
    exhausted_image_never_found_again [of default_options "register_all ?four two_images" 1
      "\<lambda>method. unat" "[failed_attempt 2]" "[]"]
    exhausted_image_never_found_again [of default_options two_images 1
      "\<lambda>method. unat" "[failed_attempt 2]" ?four]
  show ?thesis by blast
qed

end
